theory Spec2Isabelle
  imports Complex_Main "HOL-Library.Multiset" "HOL-Library.Word"
begin

section \<open>Banana Zoom: selection geometry, history and animations of Home.tsx\<close>

text \<open>
  The development follows \<^verbatim>\<open>src/Home.tsx\<close>. JavaScript numbers are modelled as
  \<^typ>\<open>real\<close> (finite values only: no NaN, no infinities, no rounding of the binary
  floating-point format); array indices and pixel counts are \<^typ>\<open>nat\<close>; the history
  cursor, which starts at \<open>-1\<close>, is an \<^typ>\<open>int\<close>.
\<close>

subsection \<open>Data model\<close>

record Rect =
  rect_x :: real
  rect_y :: real
  rect_w :: real
  rect_h :: real

text \<open>\<^verbatim>\<open>Math.round\<close>: the nearest integer, halves rounded up.\<close>

definition Math_round :: "real \<Rightarrow> real" where
  "Math_round v = of_int \<lfloor>v + 1 / 2\<rfloor>"

subsection \<open>Easing and interpolation (lines 247-253)\<close>

definition easeInOutCubic :: "real \<Rightarrow> real" where
  "easeInOutCubic t = (if t < 0.5 then 4 * t * t * t else 1 - (- 2 * t + 2) ^ 3 / 2)"

definition interpolateRect :: "Rect \<Rightarrow> Rect \<Rightarrow> real \<Rightarrow> Rect" where
  "interpolateRect start end' t =
     \<lparr> rect_x = rect_x start + (rect_x end' - rect_x start) * t,
       rect_y = rect_y start + (rect_y end' - rect_y start) * t,
       rect_w = rect_w start + (rect_w end' - rect_w start) * t,
       rect_h = rect_h start + (rect_h end' - rect_h start) * t \<rparr>"

subsection \<open>Padding a selection (runEnhancementJob 945-954, handleRegenerate 1064-1073)\<close>

text \<open>
  Both call sites compute the padded rectangle with the same nine lines and differ only
  in the constant \<^verbatim>\<open>padding\<close> (0.25 and 0.5), which is the first argument here.
\<close>

definition padRect :: "real \<Rightarrow> real \<Rightarrow> real \<Rightarrow> Rect \<Rightarrow> Rect" where
  "padRect padding sourceImageWidth sourceImageHeight originalRect =
     (let paddedX = rect_x originalRect - rect_w originalRect * padding;
          paddedY = rect_y originalRect - rect_h originalRect * padding;
          paddedW = rect_w originalRect * (1 + 2 * padding);
          paddedH = rect_h originalRect * (1 + 2 * padding);
          finalPaddedX = max 0 paddedX;
          finalPaddedY = max 0 paddedY;
          finalPaddedX2 = min sourceImageWidth (paddedX + paddedW);
          finalPaddedY2 = min sourceImageHeight (paddedY + paddedH)
      in \<lparr> rect_x = finalPaddedX, rect_y = finalPaddedY,
           rect_w = finalPaddedX2 - finalPaddedX, rect_h = finalPaddedY2 - finalPaddedY \<rparr>)"

text \<open>
  A rectangle lies within \<open>[0,W] \<times> [0,H]\<close> when it has a non-negative extent and all four
  edges are inside the bounds; it contains another when it reaches at least as far on
  every side.
\<close>

definition rect_within :: "Rect \<Rightarrow> real \<Rightarrow> real \<Rightarrow> bool" where
  "rect_within r W H \<longleftrightarrow>
     0 \<le> rect_x r \<and> 0 \<le> rect_w r \<and> rect_x r + rect_w r \<le> W \<and>
     0 \<le> rect_y r \<and> 0 \<le> rect_h r \<and> rect_y r + rect_h r \<le> H"

definition rect_contains :: "Rect \<Rightarrow> Rect \<Rightarrow> bool" where
  "rect_contains outer inner \<longleftrightarrow>
     rect_x outer \<le> rect_x inner \<and> rect_x inner + rect_w inner \<le> rect_x outer + rect_w outer \<and>
     rect_y outer \<le> rect_y inner \<and> rect_y inner + rect_h inner \<le> rect_y outer + rect_h outer"

subsection \<open>Images and data URLs\<close>

text \<open>
  Image sources are strings in the program (object URLs and PNG data URLs). They are
  modelled by how they were produced: \<open>CropUrl s r tw th p\<close> is the data URL that
  \<^verbatim>\<open>cropImage\<close> returns for the image with source \<open>s\<close>, crop rectangle \<open>r\<close>, a canvas of
  \<open>tw \<times> th\<close> and image smoothing switched off iff \<open>p\<close>; \<open>DisplayCanvasUrl s r\<close> is
  \<^verbatim>\<open>toDataURL\<close> of the on-screen canvas that shows the whole image \<open>s\<close> letterboxed with
  the dashed selection box \<open>r\<close> (screen coordinates) drawn over it; \<open>InlineUrl mime data\<close>
  is the data URL built from an \<^verbatim>\<open>inlineData\<close> part of a model response; \<open>EmptyUrl\<close> is
  the empty string.
\<close>

datatype url =
    ObjectUrl string
  | CropUrl url Rect real real bool
  | DisplayCanvasUrl url Rect
  | InlineUrl string string
  | EmptyUrl

record HTMLImageElement =
  src :: url
  naturalWidth :: nat
  naturalHeight :: nat

text \<open>
  Assigning a number to \<^verbatim>\<open>canvas.width\<close> or \<^verbatim>\<open>canvas.height\<close>: the number is
  truncated to an integer and reduced modulo \<open>2^32\<close> (an \<^verbatim>\<open>unsigned long\<close>); a result
  above 2147483647 is replaced by the default of the attribute (300 for the width, 150
  for the height). The result is the size of the canvas bitmap.
\<close>

definition canvasSize :: "nat \<Rightarrow> real \<Rightarrow> nat" where
  "canvasSize dflt v =
     (let n = (if v < 0 then - \<lfloor>- v\<rfloor> else \<lfloor>v\<rfloor>) mod 2 ^ 32
      in if n \<le> 2147483647 then nat n else dflt)"

text \<open>\<^verbatim>\<open>cropImage\<close> (lines 62-97); \<open>ctx\<close> says whether a 2D context could be acquired.\<close>

definition cropImage :: "bool \<Rightarrow> HTMLImageElement \<Rightarrow> Rect \<Rightarrow> real \<Rightarrow> real \<Rightarrow> bool \<Rightarrow> url" where
  "cropImage ctx img cropRect targetWidth targetHeight pixelated =
     (if \<not> ctx then EmptyUrl
      else CropUrl (src img) cropRect targetWidth targetHeight pixelated)"

subsection \<open>The ImageDisplay component (lines 371-569)\<close>

record ImageDisplayProps =
  imageSrc_prop :: url
  isEnhancing :: bool
  useFixedSelectionBox :: bool
  fixedSelectionSizePercentage :: real

text \<open>
  Component state: \<open>canvas\<close> is \<^verbatim>\<open>canvasRef.current\<close> given by the width and height of
  its bounding client rectangle (\<open>None\<close> when the ref is null), \<open>canvas_ctx\<close> whether
  \<^verbatim>\<open>getContext('2d')\<close> succeeds.
\<close>

record ImageDisplay =
  canvas :: "(real \<times> real) option"
  canvas_ctx :: bool
  display_image :: "HTMLImageElement option"
  selection :: "Rect option"
  startPoint :: "(real \<times> real) option"

record CanvasScale =
  cs_scale :: real
  cs_offsetX :: real
  cs_offsetY :: real
  cs_dWidth :: real
  cs_dHeight :: real

definition getCanvasScale :: "ImageDisplay \<Rightarrow> CanvasScale" where
  "getCanvasScale d =
     (case (canvas d, display_image d) of
        (Some (canvasWidth, canvasHeight), Some img) \<Rightarrow>
          (let canvasAspect = canvasWidth / canvasHeight;
               imageAspect = real (naturalWidth img) / real (naturalHeight img);
               dHeight = (if canvasAspect > imageAspect then canvasHeight
                          else canvasWidth / imageAspect);
               dWidth = (if canvasAspect > imageAspect then canvasHeight * imageAspect
                         else canvasWidth);
               offsetX = (canvasWidth - dWidth) / 2;
               offsetY = (canvasHeight - dHeight) / 2;
               scale = dWidth / real (naturalWidth img)
           in \<lparr> cs_scale = scale, cs_offsetX = offsetX, cs_offsetY = offsetY,
                cs_dWidth = dWidth, cs_dHeight = dHeight \<rparr>)
      | _ \<Rightarrow> \<lparr> cs_scale = 1, cs_offsetX = 0, cs_offsetY = 0, cs_dWidth = 0, cs_dHeight = 0 \<rparr>)"

text \<open>
  Lines 496-506 of \<^verbatim>\<open>handleMouseDown\<close>: the fixed-size box centred on the click and
  moved back into the image.
\<close>

definition fixedBoxRect :: "HTMLImageElement \<Rightarrow> real \<Rightarrow> real \<Rightarrow> real \<Rightarrow> Rect" where
  "fixedBoxRect img percentage originalClickX originalClickY =
     (let boxWidth = real (naturalWidth img) * percentage;
          boxHeight = real (naturalHeight img) * percentage;
          originalX0 = originalClickX - boxWidth / 2;
          originalY0 = originalClickY - boxHeight / 2;
          originalX1 = (if originalX0 < 0 then 0 else originalX0);
          originalY1 = (if originalY0 < 0 then 0 else originalY0);
          originalX = (if originalX1 + boxWidth > real (naturalWidth img)
                       then real (naturalWidth img) - boxWidth else originalX1);
          originalY = (if originalY1 + boxHeight > real (naturalHeight img)
                       then real (naturalHeight img) - boxHeight else originalY1)
      in \<lparr> rect_x = originalX, rect_y = originalY, rect_w = boxWidth, rect_h = boxHeight \<rparr>)"

text \<open>
  The mouse handlers return the new component state and, when they call the
  \<^verbatim>\<open>onStageSelection\<close> prop, its three arguments.
\<close>

type_synonym StageCall = "Rect \<times> Rect \<times> url"

definition handleMouseDown ::
  "ImageDisplayProps \<Rightarrow> ImageDisplay \<Rightarrow> real \<times> real \<Rightarrow> ImageDisplay \<times> StageCall option" where
  "handleMouseDown props d pos =
     (if isEnhancing props then (d, None)
      else if useFixedSelectionBox props then
        (case display_image d of
           None \<Rightarrow> (d, None)
         | Some img \<Rightarrow>
             if canvas d = None then (d, None)
             else if \<not> canvas_ctx d then (d, None)
             else
               (let cs = getCanvasScale d in
                if fst pos < cs_offsetX cs \<or> fst pos > cs_offsetX cs + cs_dWidth cs \<or>
                   snd pos < cs_offsetY cs \<or> snd pos > cs_offsetY cs + cs_dHeight cs
                then (d, None)
                else
                  (let originalClickX = (fst pos - cs_offsetX cs) / cs_scale cs;
                       originalClickY = (snd pos - cs_offsetY cs) / cs_scale cs;
                       originalRect = fixedBoxRect img (fixedSelectionSizePercentage props)
                                        originalClickX originalClickY;
                       screenRect = \<lparr> rect_x = rect_x originalRect * cs_scale cs + cs_offsetX cs,
                                      rect_y = rect_y originalRect * cs_scale cs + cs_offsetY cs,
                                      rect_w = rect_w originalRect * cs_scale cs,
                                      rect_h = rect_h originalRect * cs_scale cs \<rparr>;
                       canvasDataUrl = DisplayCanvasUrl (imageSrc_prop props) screenRect
                   in (d, Some (originalRect, screenRect, canvasDataUrl)))))
      else (d\<lparr> startPoint := Some pos,
                selection := Some \<lparr> rect_x = fst pos, rect_y = snd pos, rect_w = 0, rect_h = 0 \<rparr> \<rparr>,
            None))"

definition handleMouseMove ::
  "ImageDisplayProps \<Rightarrow> ImageDisplay \<Rightarrow> real \<times> real \<Rightarrow> ImageDisplay" where
  "handleMouseMove props d pos =
     (case startPoint d of
        None \<Rightarrow> d
      | Some sp \<Rightarrow>
          if useFixedSelectionBox props \<or> isEnhancing props then d
          else d\<lparr> selection := Some \<lparr> rect_x = min (fst pos) (fst sp), rect_y = min (snd pos) (snd sp),
                                      rect_w = \<bar>fst pos - fst sp\<bar>, rect_h = \<bar>snd pos - snd sp\<bar> \<rparr> \<rparr>)"

definition handleMouseUp ::
  "ImageDisplayProps \<Rightarrow> ImageDisplay \<Rightarrow> ImageDisplay \<times> StageCall option" where
  "handleMouseUp props d =
     (if useFixedSelectionBox props then (d, None)
      else
        (case (selection d, display_image d) of
           (Some sel, Some img) \<Rightarrow>
             if rect_w sel < 10 \<or> rect_h sel < 10 \<or> isEnhancing props
             then (d\<lparr> startPoint := None, selection := None \<rparr>, None)
             else if canvas d = None then (d, None)
             else
               (let cs = getCanvasScale d;
                    originalRect = \<lparr> rect_x = (rect_x sel - cs_offsetX cs) / cs_scale cs,
                                     rect_y = (rect_y sel - cs_offsetY cs) / cs_scale cs,
                                     rect_w = rect_w sel / cs_scale cs,
                                     rect_h = rect_h sel / cs_scale cs \<rparr>;
                    canvasDataUrl = DisplayCanvasUrl (imageSrc_prop props) sel
                in (d\<lparr> startPoint := None, selection := None \<rparr>,
                    Some (originalRect, sel, canvasDataUrl)))
         | _ \<Rightarrow> (d\<lparr> startPoint := None, selection := None \<rparr>, None)))"

subsection \<open>The Home component: state (lines 773-806)\<close>

datatype AppState = IDLE | LOADING | LOADED | SELECTING | ENHANCING | ENHANCED

record ImageDescription =
  selectionDescription :: string
  prompt :: "string option"

record HistoryStep =
  imageSrc :: url
  description :: "ImageDescription option"
  originalRect :: "Rect option"

record EnhancementJob =
  job_originalRect :: Rect
  canvasWithSelectionDataUrl :: url
  pixelatedSrc :: url
  job_screenRect :: Rect

record StagedSelection =
  staged_originalRect :: Rect
  staged_screenRect :: Rect
  canvasDataUrl :: url

record Home =
  appState :: AppState
  imageEl :: "HTMLImageElement option"
  pixelatedImageSrc :: "url option"
  enhancedImageSrc :: "url option"
  finalImageSrc :: "url option"
  history :: "HistoryStep list"
  historyIndex :: int
  newHistoryEntryData :: "(ImageDescription \<times> Rect) option"
  enhancementJob :: "EnhancementJob option"
  finalEnhancementRect :: "Rect option"
  displaySelection :: "Rect option"
  isGeneratingGif :: bool
  stagedSelection :: "StagedSelection option"
  isProcessing :: bool

definition handleStageSelection :: "Home \<Rightarrow> StageCall \<Rightarrow> Home" where
  "handleStageSelection s c =
     (case c of (rect, screen, dataUrl) \<Rightarrow>
        s\<lparr> stagedSelection := Some \<lparr> staged_originalRect = rect,
                                      staged_screenRect = screen,
                                      canvasDataUrl = dataUrl \<rparr> \<rparr>)"

text \<open>
  A mouse event on the canvas: the handler of ImageDisplay runs and its
  \<^verbatim>\<open>onStageSelection\<close> call, if any, reaches \<^verbatim>\<open>handleStageSelection\<close> of Home
  (line 1125).
\<close>

definition onMouseDown ::
  "ImageDisplayProps \<Rightarrow> ImageDisplay \<times> Home \<Rightarrow> real \<times> real \<Rightarrow> ImageDisplay \<times> Home" where
  "onMouseDown props ds pos =
     (case handleMouseDown props (fst ds) pos of
        (d', None) \<Rightarrow> (d', snd ds)
      | (d', Some c) \<Rightarrow> (d', handleStageSelection (snd ds) c))"

definition onMouseUp ::
  "ImageDisplayProps \<Rightarrow> ImageDisplay \<times> Home \<Rightarrow> ImageDisplay \<times> Home" where
  "onMouseUp props ds =
     (case handleMouseUp props (fst ds) of
        (d', None) \<Rightarrow> (d', snd ds)
      | (d', Some c) \<Rightarrow> (d', handleStageSelection (snd ds) c))"

subsection \<open>What the browser and the remote models supply\<close>

text \<open>
  The responses of the two remote models are classified by the branch of the service
  function they lead to, in the order in which the code tests them.
\<close>

datatype describe_response =
    DescribeThrows
  | DescribeNoText
  | DescribeNoJson
  | DescribeJson ImageDescription

datatype part = TextPart string | InlineDataPart string string

datatype enhance_response =
    EnhanceThrows
  | EnhanceBlocked
  | EnhanceNoCandidates
  | EnhanceNoContents
  | EnhanceNoParts
  | EnhanceParts "part list"

text \<open>
  \<open>ctx2d\<close>: whether \<^verbatim>\<open>getContext('2d')\<close> of a fresh canvas succeeds; \<open>imageSize\<close>: the
  natural width and height of the image behind a URL, \<open>None\<close> when it fails to load;
  \<open>describe_api\<close> and \<open>enhance_api\<close>: the two \<^verbatim>\<open>generateContent\<close> calls;
  \<open>innerWidth\<close> and \<open>innerHeight\<close>: the window.
\<close>

record Env =
  ctx2d :: bool
  imageSize :: "url \<Rightarrow> (nat \<times> nat) option"
  describe_api :: "url \<Rightarrow> ImageDescription list \<Rightarrow> describe_response"
  enhance_api :: "url \<Rightarrow> enhance_response"
  innerWidth :: real
  innerHeight :: real

text \<open>
  \<^verbatim>\<open>new Image()\<close> followed by setting \<^verbatim>\<open>src\<close>: the element handed to \<^verbatim>\<open>onload\<close>, or
  \<open>None\<close> when \<^verbatim>\<open>onerror\<close> fires instead.
\<close>

definition loadImage :: "Env \<Rightarrow> url \<Rightarrow> HTMLImageElement option" where
  "loadImage env u =
     (case imageSize env u of
        None \<Rightarrow> None
      | Some (width, height) \<Rightarrow> Some \<lparr> src = u, naturalWidth = width, naturalHeight = height \<rparr>)"

text \<open>The calls a handler makes to the two services, in order, with their arguments.\<close>

datatype service_call =
    DescribeCall url "ImageDescription list"
  | EnhanceCall url "string list"

subsection \<open>The two services (lines 101-245)\<close>

definition fallbackDescription :: ImageDescription where
  "fallbackDescription =
     \<lparr> selectionDescription = ''user selected a region to enhance'', prompt = None \<rparr>"

text \<open>
  \<open>secondPart s\<close> is \<^verbatim>\<open>s.split(',')[1]\<close>, the text between the first and the second
  comma of \<open>s\<close>, with the empty string also standing for \<^verbatim>\<open>undefined\<close>. \<open>base64Data u\<close>
  says whether it is non-empty for the string behind \<open>u\<close>: \<^verbatim>\<open>toDataURL\<close> gives
  \<^verbatim>\<open>data:image/png;base64,...\<close> for a canvas with pixels and \<^verbatim>\<open>data:,\<close> for one
  without; the on-screen canvas has pixels; an inline part gives
  \<^verbatim>\<open>data:<mimeType>;base64,<data>\<close>.
\<close>

definition secondPart :: "string \<Rightarrow> string" where
  "secondPart s =
     takeWhile (\<lambda>c. c \<noteq> CHR '','') (drop 1 (dropWhile (\<lambda>c. c \<noteq> CHR '','') s))"

fun base64Data :: "url \<Rightarrow> bool" where
  "base64Data (ObjectUrl s) = (secondPart s \<noteq> [])"
| "base64Data (CropUrl s r tw th p) = (canvasSize 300 tw \<noteq> 0 \<and> canvasSize 150 th \<noteq> 0)"
| "base64Data (DisplayCanvasUrl s r) = True"
| "base64Data (InlineUrl mime b64) = (secondPart (''data:'' @ mime @ '';base64,'' @ b64) \<noteq> [])"
| "base64Data EmptyUrl = False"

definition serviceDescribeImage :: "Env \<Rightarrow> url \<Rightarrow> ImageDescription list \<Rightarrow> ImageDescription" where
  "serviceDescribeImage env imageDataUrl descriptions =
     (if \<not> base64Data imageDataUrl then fallbackDescription
      else case describe_api env imageDataUrl descriptions of
             DescribeJson data \<Rightarrow> data
           | _ \<Rightarrow> fallbackDescription)"

definition serviceEnhance :: "Env \<Rightarrow> url \<Rightarrow> string list \<Rightarrow> url" where
  "serviceEnhance env croppedImageDataUrl prompts =
     (if prompts = [] then croppedImageDataUrl
      else case enhance_api env croppedImageDataUrl of
             EnhanceParts parts \<Rightarrow>
               foldl (\<lambda>acc p. case p of InlineDataPart mimeType imageData \<Rightarrow> InlineUrl mimeType imageData
                                        | TextPart t \<Rightarrow> acc)
                     croppedImageDataUrl parts
           | _ \<Rightarrow> croppedImageDataUrl)"

subsection \<open>History helpers\<close>

text \<open>
  \<^verbatim>\<open>xs.slice(0, e)\<close>: a negative end counts from the end of the array.
  \<^verbatim>\<open>xs[i]\<close> is \<^verbatim>\<open>undefined\<close> outside the array.
\<close>

definition slice0 :: "'a list \<Rightarrow> int \<Rightarrow> 'a list" where
  "slice0 xs e = (if e < 0 then take (nat (int (length xs) + e)) xs else take (nat e) xs)"


definition promptOf :: "ImageDescription \<Rightarrow> string" where
  "promptOf d = (case prompt d of None \<Rightarrow> [] | Some p \<Rightarrow> p)"

subsection \<open>The enhancement pipeline of Home (lines 902-1011)\<close>

definition startEnhancementProcess :: "Env \<Rightarrow> Home \<Rightarrow> Rect \<Rightarrow> Rect \<Rightarrow> url \<Rightarrow> Home" where
  "startEnhancementProcess env s rect screen canvasWithSelection =
     (case imageEl s of
        None \<Rightarrow> s
      | Some img \<Rightarrow>
          (let s1 = (if historyIndex s < int (length (history s)) - 1
                     then s\<lparr> history := slice0 (history s) (historyIndex s + 1) \<rparr> else s);
               aspectRatio = rect_w rect / rect_h rect;
               padding = 0.05;
               maxWidth = innerWidth env * (1 - padding);
               maxHeight = innerHeight env * (1 - padding);
               targetHeight = (if maxWidth / aspectRatio > maxHeight then maxHeight
                               else maxWidth / aspectRatio);
               targetWidth = (if maxWidth / aspectRatio > maxHeight then maxHeight * aspectRatio
                              else maxWidth);
               pixelated = cropImage (ctx2d env) img rect (rect_w rect) (rect_h rect) True
           in s1\<lparr> appState := ENHANCING,
                   finalEnhancementRect :=
                     Some \<lparr> rect_x = (innerWidth env - targetWidth) / 2,
                            rect_y = (innerHeight env - targetHeight) / 2,
                            rect_w = targetWidth, rect_h = targetHeight \<rparr>,
                   enhancementJob :=
                     Some \<lparr> job_originalRect = rect, canvasWithSelectionDataUrl = canvasWithSelection,
                            pixelatedSrc = pixelated, job_screenRect = screen \<rparr> \<rparr>))"

definition handleProcessClick :: "Env \<Rightarrow> Home \<Rightarrow> Home" where
  "handleProcessClick env s =
     (case stagedSelection s of
        None \<Rightarrow> s
      | Some staged \<Rightarrow>
          (startEnhancementProcess env s (staged_originalRect staged) (staged_screenRect staged)
             (canvasDataUrl staged)) \<lparr> stagedSelection := None \<rparr>)"

text \<open>
  Lines 969-974 and 1084-1089: the selection expressed in the coordinates of the
  enhanced padded image.
\<close>

definition finalCropRect :: "HTMLImageElement \<Rightarrow> Rect \<Rightarrow> Rect \<Rightarrow> Rect" where
  "finalCropRect enhancedPaddedImage rect paddedRect =
     \<lparr> rect_x = real (naturalWidth enhancedPaddedImage) * ((rect_x rect - rect_x paddedRect) / rect_w paddedRect),
       rect_y = real (naturalHeight enhancedPaddedImage) * ((rect_y rect - rect_y paddedRect) / rect_h paddedRect),
       rect_w = real (naturalWidth enhancedPaddedImage) * (rect_w rect / rect_w paddedRect),
       rect_h = real (naturalHeight enhancedPaddedImage) * (rect_h rect / rect_h paddedRect) \<rparr>"

text \<open>
  \<^verbatim>\<open>runEnhancementJob\<close>. \<^verbatim>\<open>serviceDescribeImage\<close> and \<^verbatim>\<open>serviceEnhance\<close> catch their own
  failures and \<^verbatim>\<open>cropImage\<close> always resolves, so the only rejection inside the
  \<^verbatim>\<open>try\<close> block is the load of the image that \<^verbatim>\<open>serviceEnhance\<close> returned; it leads to
  the \<^verbatim>\<open>catch\<close> block.
\<close>

definition runEnhancementJob :: "Env \<Rightarrow> Home \<Rightarrow> Home \<times> service_call list" where
  "runEnhancementJob env s =
     (case (enhancementJob s, imageEl s) of
        (Some job, Some img) \<Rightarrow>
          (let rect = job_originalRect job;
               descriptionHistory =
                 List.map_filter description (slice0 (history s) (historyIndex s + 1));
               desc = serviceDescribeImage env (canvasWithSelectionDataUrl job) descriptionHistory;
               s1 = s\<lparr> isProcessing := True, newHistoryEntryData := Some (desc, rect) \<rparr>;
               padding = 0.25;
               paddedRect = padRect padding (real (naturalWidth img)) (real (naturalHeight img)) rect;
               aspect = rect_h paddedRect / rect_w paddedRect;
               targetWidth = 512 * (1 + padding);
               targetHeight = Math_round (targetWidth * aspect);
               croppedForEnhancement =
                 cropImage (ctx2d env) img paddedRect targetWidth targetHeight False;
               prompts = map promptOf descriptionHistory @ [promptOf desc];
               enhancedPaddedSrc = serviceEnhance env croppedForEnhancement prompts;
               calls = [DescribeCall (canvasWithSelectionDataUrl job) descriptionHistory,
                        EnhanceCall croppedForEnhancement prompts]
           in case loadImage env enhancedPaddedSrc of
                Some enhancedPaddedImage \<Rightarrow>
                  (let finalImageWidth = 1024;
                       finalImageHeight = Math_round (finalImageWidth * (rect_h rect / rect_w rect));
                       enhancedSrc = cropImage (ctx2d env) enhancedPaddedImage
                                       (finalCropRect enhancedPaddedImage rect paddedRect)
                                       finalImageWidth finalImageHeight False
                   in (s1\<lparr> pixelatedImageSrc := Some (pixelatedSrc job),
                           enhancedImageSrc := Some enhancedSrc,
                           appState := ENHANCED,
                           enhancementJob := None, isProcessing := False \<rparr>, calls))
              | None \<Rightarrow>
                  (let fallbackSrc = cropImage (ctx2d env) img rect (rect_w rect * 2) (rect_h rect * 2) False
                   in (s1\<lparr> pixelatedImageSrc := Some (pixelatedSrc job),
                           enhancedImageSrc := Some fallbackSrc,
                           appState := ENHANCED,
                           enhancementJob := None, isProcessing := False \<rparr>, calls)))
      | _ \<Rightarrow> (s, []))"

text \<open>
  \<^verbatim>\<open>handleEnhancementComplete\<close>: the history and the cursor are set at once, the other
  fields when the new image has loaded (there is no \<^verbatim>\<open>onerror\<close> handler). The empty
  string is falsy.
\<close>

definition handleEnhancementComplete :: "Env \<Rightarrow> Home \<Rightarrow> Home" where
  "handleEnhancementComplete env s =
     (case (enhancedImageSrc s, newHistoryEntryData s) of
        (Some enhanced, Some (desc, rect)) \<Rightarrow>
          if enhanced = EmptyUrl then s
          else
            (let newStep = \<lparr> imageSrc = enhanced, description = Some desc, originalRect = Some rect \<rparr>;
                 newHistory = slice0 (history s) (historyIndex s + 1);
                 s1 = s\<lparr> history := newHistory @ [newStep], historyIndex := int (length newHistory) \<rparr>
             in case loadImage env enhanced of
                  None \<Rightarrow> s1
                | Some newImage \<Rightarrow>
                    s1\<lparr> imageEl := Some newImage, finalImageSrc := Some enhanced,
                        enhancedImageSrc := None, finalEnhancementRect := None,
                        newHistoryEntryData := None, displaySelection := None,
                        appState := LOADED \<rparr>)
      | _ \<Rightarrow> s)"

subsection \<open>Regenerating the current step (lines 1048-1103)\<close>


subsection \<open>The zoom GIF (lines 254-334)\<close>

text \<open>
  A frame written to the encoder is recorded by what was drawn for it: a zoom frame
  shows the source image cropped to \<open>currentRect\<close> with the dashed rectangle
  \<open>rectOnCanvas\<close>, a hold frame shows the next image uncropped. Every frame carries its
  delay.
\<close>

datatype frame =
    ZoomFrame url Rect Rect
  | HoldFrame url

datatype gif_error =
    HistoryTooShort
  | ImageLoadError
  | NoFirstSelection
  | NoCanvasContext
  | IndexSizeError

text \<open>
  The encoder's content: the frames written with their delays; \<open>gif_width\<close> and
  \<open>gif_height\<close> are the width and height that \<^verbatim>\<open>getImageData\<close> reports for each of
  them, the size of the canvas.
\<close>

record Gif =
  gif_width :: nat
  gif_height :: nat
  gif_frames :: "(frame \<times> real) list"

text \<open>The values \<open>f\<close> takes in \<^verbatim>\<open>for (let f = 0; f < bound; f++)\<close>.\<close>

definition for_range :: "real \<Rightarrow> nat list" where
  "for_range bound = [0..<nat \<lceil>bound\<rceil>]"

definition zoomFrame :: "real \<Rightarrow> real \<Rightarrow> real \<Rightarrow> HTMLImageElement \<Rightarrow> Rect \<Rightarrow> nat \<Rightarrow> frame" where
  "zoomFrame gifWidth gifHeight zoomFrames sourceImageForZoom endRect f =
     (let startRect = \<lparr> rect_x = 0, rect_y = 0,
                         rect_w = real (naturalWidth sourceImageForZoom),
                         rect_h = real (naturalHeight sourceImageForZoom) \<rparr>;
          t = easeInOutCubic (real f / zoomFrames);
          currentRect = interpolateRect startRect endRect t;
          scaleX = gifWidth / rect_w currentRect;
          scaleY = gifHeight / rect_h currentRect;
          rectOnCanvas = \<lparr> rect_x = (rect_x endRect - rect_x currentRect) * scaleX,
                           rect_y = (rect_y endRect - rect_y currentRect) * scaleY,
                           rect_w = rect_w endRect * scaleX,
                           rect_h = rect_h endRect * scaleY \<rparr>
      in ZoomFrame (src sourceImageForZoom) currentRect rectOnCanvas)"

text \<open>The body of the loop over \<open>i\<close> (lines 296-331): the frames of one pair of steps.\<close>

definition pairFrames ::
  "real \<Rightarrow> real \<Rightarrow> real \<Rightarrow> real \<Rightarrow> real \<Rightarrow> HTMLImageElement list \<Rightarrow> HistoryStep list \<Rightarrow> nat
     \<Rightarrow> (frame \<times> real) list" where
  "pairFrames gifWidth gifHeight zoomFrames holdFrames frameDelay images steps i =
     (let sourceImageForZoom = images ! i;
          nextEnhancedImage = images ! (i + 1)
      in case originalRect (steps ! (i + 1)) of
           None \<Rightarrow> []
         | Some endRect \<Rightarrow>
             map (\<lambda>f. (zoomFrame gifWidth gifHeight zoomFrames sourceImageForZoom endRect f, frameDelay))
               (for_range zoomFrames) @
             map (\<lambda>f. (HoldFrame (src nextEnhancedImage), frameDelay)) (for_range holdFrames))"

text \<open>
  \<^verbatim>\<open>generateZoomGif\<close>. Every frame goes through \<^verbatim>\<open>addFrameToGif\<close> (lines 254-259),
  which reads the whole canvas with \<^verbatim>\<open>getImageData\<close>; on a canvas without pixels (a
  width or height of 0) that call throws an IndexSizeError. So the first frame to be
  written makes the function fail, and no frame is written. The limits a browser puts
  on the size of a canvas are not modelled.
\<close>

definition generateZoomGif :: "Env \<Rightarrow> HistoryStep list \<Rightarrow> gif_error + Gif" where
  "generateZoomGif env steps =
     (if length steps < 2 then Inl HistoryTooShort
      else case those (map (\<lambda>step. loadImage env (imageSrc step)) steps) of
        None \<Rightarrow> Inl ImageLoadError
      | Some images \<Rightarrow>
          (case originalRect (steps ! 1) of
             None \<Rightarrow> Inl NoFirstSelection
           | Some firstSelectionRect \<Rightarrow>
               (let gifAspectRatio = rect_h firstSelectionRect / rect_w firstSelectionRect;
                    gifWidth = 512;
                    gifHeight = Math_round (gifWidth * gifAspectRatio);
                    canvasWidth = canvasSize 300 gifWidth;
                    canvasHeight = canvasSize 150 gifHeight
                in if \<not> ctx2d env then Inl NoCanvasContext
                   else
                     (let fps = 30;
                          zoomDuration = 1.0;
                          holdDuration = 0.5;
                          zoomFrames = zoomDuration * fps;
                          holdFrames = holdDuration * fps;
                          frameDelay = 1000 / fps;
                          frames = concat (map (pairFrames gifWidth gifHeight zoomFrames holdFrames
                                                  frameDelay images steps)
                                             [0..<length images - 1])
                      in if frames \<noteq> [] \<and> (canvasWidth = 0 \<or> canvasHeight = 0)
                         then Inl IndexSizeError
                         else Inr \<lparr> gif_width = canvasWidth, gif_height = canvasHeight,
                                    gif_frames = frames \<rparr>))))"

text \<open>\<^verbatim>\<open>handleExportGif\<close> (lines 1105-1114) passes the active slice of the history.\<close>

definition handleExportGif :: "Env \<Rightarrow> Home \<Rightarrow> (gif_error + Gif) option" where
  "handleExportGif env s =
     (if historyIndex s < 1 then None
      else Some (generateZoomGif env (slice0 (history s) (historyIndex s + 1))))"

subsection \<open>The pixel dissolve (lines 576-635)\<close>

text \<open>
  \<^verbatim>\<open>Math.random()\<close> is a sequence of draws, \<open>random k\<close> being the value of call number
  \<open>k\<close>; each lies in \<open>[0,1)\<close>. The shuffle loop runs \<open>i\<close> from \<open>length - 1\<close> down to 1 and
  swaps the entries at \<open>i\<close> and \<open>j\<close>.
\<close>

fun fisherYates :: "(nat \<Rightarrow> real) \<Rightarrow> nat \<Rightarrow> nat \<Rightarrow> nat list \<Rightarrow> nat list" where
  "fisherYates random calls 0 pixelIndices = pixelIndices"
| "fisherYates random calls (Suc n) pixelIndices =
     (let i = Suc n;
          j = nat \<lfloor>random calls * real (i + 1)\<rfloor>
      in fisherYates random (Suc calls) n
           (pixelIndices[i := pixelIndices ! j, j := pixelIndices ! i]))"

definition shuffledIndices :: "(nat \<Rightarrow> real) \<Rightarrow> nat \<Rightarrow> nat list" where
  "shuffledIndices random totalPixels =
     fisherYates random 0 (totalPixels - 1) [0..<totalPixels]"

definition pixelsPerFrame :: "nat \<Rightarrow> nat" where
  "pixelsPerFrame totalPixels = max 1 (nat \<lceil>real totalPixels / 60\<rceil>)"

text \<open>Lines 622-628: the four bytes of pixel \<open>p\<close> are copied from the high-detail data.\<close>

definition revealPixel :: "8 word list \<Rightarrow> 8 word list \<Rightarrow> nat \<Rightarrow> 8 word list" where
  "revealPixel highData low p =
     (let pIndex = p * 4 in
      if length low > pIndex + 3 \<and> length highData > pIndex + 3
      then low[pIndex := highData ! pIndex,
               pIndex + 1 := highData ! (pIndex + 1),
               pIndex + 2 := highData ! (pIndex + 2),
               pIndex + 3 := highData ! (pIndex + 3)]
      else low)"

text \<open>
  The state of a running animation: \<open>lowData\<close> is the working buffer, \<open>canvasData\<close> what
  was last put on the canvas, \<open>onCompleteCalls\<close> counts the calls of \<^verbatim>\<open>onComplete\<close>.
\<close>

record Dissolve =
  lowData :: "8 word list"
  canvasData :: "8 word list"
  currentPixel :: nat
  onCompleteCalls :: nat

text \<open>
  \<^verbatim>\<open>animate\<close>, one call per animation frame; \<open>mounted tick\<close> says whether
  \<^verbatim>\<open>canvasRef.current\<close> is still there at that frame. An abandoned animation is \<open>None\<close>.
\<close>

function animate ::
  "(nat \<Rightarrow> bool) \<Rightarrow> nat list \<Rightarrow> 8 word list \<Rightarrow> nat \<Rightarrow> nat \<Rightarrow> Dissolve \<Rightarrow> Dissolve option" where
  "animate mounted pixelIndices highData totalPixels tick st =
     (if \<not> mounted tick then None
      else if currentPixel st \<ge> totalPixels
      then Some (st\<lparr> canvasData := highData, onCompleteCalls := onCompleteCalls st + 1 \<rparr>)
      else
        (let endPixel = min (currentPixel st + pixelsPerFrame totalPixels) totalPixels;
             low = foldl (\<lambda>buf i. revealPixel highData buf (pixelIndices ! i)) (lowData st)
                     [currentPixel st..<endPixel]
         in animate mounted pixelIndices highData totalPixels (Suc tick)
              (st\<lparr> lowData := low, canvasData := low, currentPixel := endPixel \<rparr>)))"
  by pat_completeness auto

termination
  by (relation "measure (\<lambda>(mounted, pixelIndices, highData, totalPixels, tick, st).
                   totalPixels - currentPixel st)")
     (auto simp: pixelsPerFrame_def)

text \<open>
  \<^verbatim>\<open>startAnimation\<close> for a canvas of \<open>width \<times> height\<close>; \<open>low0\<close> and \<open>highData\<close> are the
  results of \<^verbatim>\<open>getImageData\<close> for the two scaled images, \<open>contexts\<close> says whether the
  three 2D contexts could be acquired.
\<close>

definition startAnimation ::
  "(nat \<Rightarrow> real) \<Rightarrow> (nat \<Rightarrow> bool) \<Rightarrow> bool \<Rightarrow> nat \<Rightarrow> nat \<Rightarrow> 8 word list \<Rightarrow> 8 word list
     \<Rightarrow> Dissolve option" where
  "startAnimation random mounted contexts width height low0 highData =
     (if \<not> mounted 0 \<or> \<not> contexts then None
      else
        (let totalPixels = width * height;
             pixelIndices = shuffledIndices random totalPixels
         in animate mounted pixelIndices highData totalPixels 0
              \<lparr> lowData = low0, canvasData = low0, currentPixel = 0, onCompleteCalls = 0 \<rparr>))"

subsection \<open>Concrete inputs\<close>

text \<open>
  The end-to-end scenario of the specification: an 800 \<times> 600 image shown on an 800 \<times> 600
  canvas, the fixed box of 12.5 percent, a click at (400, 300); and a few inputs beside it.
\<close>

definition scenario_rect :: Rect where
  "scenario_rect = \<lparr> rect_x = 350, rect_y = 262.5, rect_w = 100, rect_h = 75 \<rparr>"

definition far_rect :: Rect where
  "far_rect = \<lparr> rect_x = 200, rect_y = 0, rect_w = 10, rect_h = 10 \<rparr>"

definition scenario_image :: HTMLImageElement where
  "scenario_image = \<lparr> src = ObjectUrl ''blob:initial'', naturalWidth = 800, naturalHeight = 600 \<rparr>"

definition scenario_display :: ImageDisplay where
  "scenario_display = \<lparr> canvas = Some (800, 600), canvas_ctx = True,
     display_image = Some scenario_image, selection = None, startPoint = None \<rparr>"

definition scenario_props :: ImageDisplayProps where
  "scenario_props = \<lparr> imageSrc_prop = ObjectUrl ''blob:initial'', isEnhancing = False,
     useFixedSelectionBox = True, fixedSelectionSizePercentage = 0.125 \<rparr>"

definition scenario_home :: Home where
  "scenario_home = \<lparr> appState = LOADED, imageEl = Some scenario_image,
     pixelatedImageSrc = None, enhancedImageSrc = None,
     finalImageSrc = Some (ObjectUrl ''blob:initial''),
     history = [\<lparr> imageSrc = ObjectUrl ''blob:initial'', description = None, originalRect = None \<rparr>],
     historyIndex = 0, newHistoryEntryData = None, enhancementJob = None,
     finalEnhancementRect = None, displaySelection = None, isGeneratingGif = False,
     stagedSelection = None, isProcessing = False \<rparr>"

definition thin_rect :: Rect where
  "thin_rect = \<lparr> rect_x = 100, rect_y = 100, rect_w = 9, rect_h = 50 \<rparr>"

definition stepA :: HistoryStep where
  "stepA = \<lparr> imageSrc = ObjectUrl ''blob:A'', description = None, originalRect = None \<rparr>"

definition stepB :: HistoryStep where
  "stepB = \<lparr> imageSrc = ObjectUrl ''blob:B'',
     description = Some \<lparr> selectionDescription = ''The user selected B'', prompt = Some ''close-up'' \<rparr>,
     originalRect = Some scenario_rect \<rparr>"

definition stepC :: HistoryStep where
  "stepC = \<lparr> imageSrc = ObjectUrl ''blob:C'',
     description = Some \<lparr> selectionDescription = ''The user selected C'', prompt = None \<rparr>,
     originalRect = Some scenario_rect \<rparr>"

definition stepD :: HistoryStep where
  "stepD = \<lparr> imageSrc = ObjectUrl ''blob:D'',
     description = Some fallbackDescription, originalRect = Some scenario_rect \<rparr>"

definition home_ABC :: Home where
  "home_ABC = scenario_home \<lparr> history := [stepA, stepB, stepC], historyIndex := 1 \<rparr>"

definition home_ABC_enhanced :: Home where
  "home_ABC_enhanced = home_ABC \<lparr> enhancedImageSrc := Some (ObjectUrl ''blob:D''),
     newHistoryEntryData := Some (fallbackDescription, scenario_rect) \<rparr>"

text \<open>
  An environment in which both remote calls throw, a 2D context is always available,
  a canvas data URL decodes to the size of its canvas and every other non-empty URL to
  an 800 \<times> 600 image.
\<close>

fun scenario_size :: "url \<Rightarrow> (nat \<times> nat) option" where
  "scenario_size (CropUrl s r tw th p) = Some (nat \<lfloor>tw\<rfloor>, nat \<lfloor>th\<rfloor>)"
| "scenario_size EmptyUrl = None"
| "scenario_size u = Some (800, 600)"

definition scenario_env :: Env where
  "scenario_env = \<lparr> ctx2d = True, imageSize = scenario_size,
     describe_api = (\<lambda>u ds. DescribeThrows), enhance_api = (\<lambda>u. EnhanceThrows),
     innerWidth = 1000, innerHeight = 800 \<rparr>"

text \<open>The scenario step by step: click, Process, the enhancement job, the reveal's end.\<close>

definition scenario_staged :: Home where
  "scenario_staged = snd (onMouseDown scenario_props (scenario_display, scenario_home) (400, 300))"

definition scenario_enhancing :: Home where
  "scenario_enhancing = handleProcessClick scenario_env scenario_staged"






text \<open>What a claim about the image handed to a service speaks of.\<close>

fun call_image :: "service_call \<Rightarrow> url" where
  "call_image (DescribeCall u ds) = u"
| "call_image (EnhanceCall u ps) = u"

fun is_crop_of :: "url \<Rightarrow> url \<Rightarrow> Rect \<Rightarrow> bool" where
  "is_crop_of (CropUrl s r tw th p) s' r' = (s = s' \<and> r = r' \<and> \<not> p)"
| "is_crop_of (ObjectUrl v) s' r' = False"
| "is_crop_of (DisplayCanvasUrl s r) s' r' = False"
| "is_crop_of (InlineUrl m b) s' r' = False"
| "is_crop_of EmptyUrl s' r' = False"

section \<open>Properties\<close>

subsection \<open>Easing\<close>

lemma ease_lower_half: "0 \<le> t \<Longrightarrow> t < 1 / 2 \<Longrightarrow> 4 * t * t * t \<le> (1 / 2 :: real)"
proof -
  assume a: "0 \<le> t" "t < 1 / 2"
  have "t ^ 3 \<le> (1 / 2) ^ 3" using a by (intro power_mono) auto
  then show ?thesis by (simp add: power3_eq_cube)
qed

lemma ease_upper_half: "1 / 2 \<le> t \<Longrightarrow> t \<le> 1 \<Longrightarrow> (1 / 2 :: real) \<le> 1 - (- 2 * t + 2) ^ 3 / 2"
proof -
  assume a: "1 / 2 \<le> t" "t \<le> 1"
  have "(- 2 * t + 2) ^ 3 \<le> 1 ^ 3" using a by (intro power_mono) auto
  then show ?thesis by simp
qed

text \<open>
  C9. \<open>easeInOutCubic\<close> takes 0 to 0, 1 to 1 and 0.5 to 0.5, and is monotonically
  non-decreasing on the interval \<open>[0,1]\<close>.
\<close>

theorem easeInOutCubic_endpoints_mono:
  "easeInOutCubic 0 = 0 \<and> easeInOutCubic 1 = 1 \<and> easeInOutCubic 0.5 = 0.5 \<and>
   (\<forall>s t. 0 \<le> s \<and> s \<le> t \<and> t \<le> 1 \<longrightarrow> easeInOutCubic s \<le> easeInOutCubic t)"
proof -
  have mono: "easeInOutCubic s \<le> easeInOutCubic t" if st: "0 \<le> s" "s \<le> t" "t \<le> 1" for s t
  proof -
    consider (low) "t < 1 / 2" | (mid) "s < 1 / 2" "1 / 2 \<le> t" | (high) "1 / 2 \<le> s"
      by linarith
    then show ?thesis
    proof cases
      case low
      have "s ^ 3 \<le> t ^ 3" using st by (intro power_mono) auto
      with low st show ?thesis by (simp add: easeInOutCubic_def power3_eq_cube)
    next
      case mid
      have "4 * s * s * s \<le> 1 / 2" using st mid by (intro ease_lower_half) auto
      moreover have "1 / 2 \<le> 1 - (- 2 * t + 2) ^ 3 / 2" using st mid by (intro ease_upper_half) auto
      ultimately show ?thesis using mid by (simp add: easeInOutCubic_def)
    next
      case high
      have "(- 2 * t + 2) ^ 3 \<le> (- 2 * s + 2) ^ 3" using st by (intro power_mono) auto
      with high st show ?thesis by (simp add: easeInOutCubic_def)
    qed
  qed
  have "easeInOutCubic 0 = 0" by (simp add: easeInOutCubic_def)
  moreover have "easeInOutCubic 1 = 1" by (simp add: easeInOutCubic_def)
  moreover have "easeInOutCubic 0.5 = 0.5" by (simp add: easeInOutCubic_def power3_eq_cube)
  ultimately show ?thesis using mono by blast
qed

theorem easeInOutCubic_endpoints_mono_witness:
  "easeInOutCubic (1 / 4) \<le> easeInOutCubic (3 / 4) \<and> easeInOutCubic (1 / 4) = 1 / 16 \<and>
   easeInOutCubic (3 / 4) = 15 / 16 \<and> easeInOutCubic 0 = 0 \<and> easeInOutCubic 1 = 1"
proof -
  have "(0::real) \<le> 1 / 4 \<and> (1 / 4 :: real) \<le> 3 / 4 \<and> (3 / 4 :: real) \<le> 1" by simp
  then have "easeInOutCubic (1 / 4) \<le> easeInOutCubic (3 / 4)"
    using easeInOutCubic_endpoints_mono by blast
  moreover have "easeInOutCubic (1 / 4) = 1 / 16" by (simp add: easeInOutCubic_def)
  moreover have "easeInOutCubic (3 / 4) = 15 / 16" by (simp add: easeInOutCubic_def power3_eq_cube)
  ultimately show ?thesis using easeInOutCubic_endpoints_mono by simp
qed

subsection \<open>Padding\<close>

text \<open>
  C6 (as amended). For every rectangle \<open>r\<close>, padding ratio \<open>\<ge> 0\<close> and bounds \<open>(W,H)\<close>:
  whenever \<open>r\<close> lies within \<open>[0,W] \<times> [0,H]\<close>, the padded rectangle contains \<open>r\<close> and lies
  within \<open>[0,W] \<times> [0,H]\<close>; for every \<open>r\<close> its left and top edges are at least 0 and its
  right and bottom edges at most \<open>W\<close> and \<open>H\<close>.
\<close>

theorem padRect_contains_within:
  assumes "0 \<le> padding"
  shows "(rect_within r W H \<longrightarrow>
            rect_contains (padRect padding W H r) r \<and> rect_within (padRect padding W H r) W H) \<and>
         0 \<le> rect_x (padRect padding W H r) \<and>
         rect_x (padRect padding W H r) + rect_w (padRect padding W H r) \<le> W \<and>
         0 \<le> rect_y (padRect padding W H r) \<and>
         rect_y (padRect padding W H r) + rect_h (padRect padding W H r) \<le> H"
proof -
  have px: "0 \<le> rect_w r \<Longrightarrow> rect_w r * padding \<ge> 0" and py: "0 \<le> rect_h r \<Longrightarrow> rect_h r * padding \<ge> 0"
    using assms by simp_all
  show ?thesis
    using px py
    by (auto simp: padRect_def rect_within_def rect_contains_def Let_def algebra_simps max_def min_def)
qed

theorem padRect_contains_within_witness:
  "(0::real) \<le> 0.25 \<and> rect_within scenario_rect 800 600 \<and>
   rect_contains (padRect 0.25 800 600 scenario_rect) scenario_rect \<and>
   rect_within (padRect 0.25 800 600 scenario_rect) 800 600 \<and>
   padRect 0.25 800 600 scenario_rect =
     \<lparr> rect_x = 325, rect_y = 243.75, rect_w = 150, rect_h = 112.5 \<rparr>"
proof -
  have p: "(0::real) \<le> 0.25" by simp
  have w: "rect_within scenario_rect 800 600"
    by (simp add: rect_within_def scenario_rect_def)
  have v: "padRect 0.25 800 600 scenario_rect =
     \<lparr> rect_x = 325, rect_y = 243.75, rect_w = 150, rect_h = 112.5 \<rparr>"
    by (simp add: padRect_def scenario_rect_def Let_def)
  show ?thesis
    using padRect_contains_within [OF p, of scenario_rect 800 600] w v p by simp
qed

text \<open>
  A selection to the right of a 100 \<times> 100 image: the padded rectangle starts at 197.5
  and has width -97.5, so it does not lie within the bounds.
\<close>

theorem padRect_always_within_counterexample:
  "padRect 0.25 100 100 far_rect = \<lparr> rect_x = 197.5, rect_y = 0, rect_w = - 97.5, rect_h = 12.5 \<rparr> \<and>
   \<not> rect_within (padRect 0.25 100 100 far_rect) 100 100"
  by (simp add: padRect_def Let_def rect_within_def far_rect_def)

subsection \<open>The fixed selection box\<close>

text \<open>
  C4 (as amended). For every box no larger than the bounds (the box is the image size
  times a percentage between 0 and 1), the box staged by a click keeps its size and lies
  entirely within \<open>[0,W] \<times> [0,H]\<close>.
\<close>

theorem fixedBox_within:
  assumes "handleMouseDown props d pos = (d', Some (r, sr, u))"
    and "display_image d = Some img"
    and "0 \<le> fixedSelectionSizePercentage props" and "fixedSelectionSizePercentage props \<le> 1"
  shows "rect_w r = real (naturalWidth img) * fixedSelectionSizePercentage props \<and>
         rect_h r = real (naturalHeight img) * fixedSelectionSizePercentage props \<and>
         rect_within r (real (naturalWidth img)) (real (naturalHeight img))"
proof -
  obtain cx cy where r: "r = fixedBoxRect img (fixedSelectionSizePercentage props) cx cy"
    using assms(1,2)
    by (auto simp: handleMouseDown_def Let_def split: if_splits option.splits)
  have a: "real (naturalWidth img) * fixedSelectionSizePercentage props \<le> real (naturalWidth img)"
    using assms(3,4) by (simp add: mult_left_le)
  have b: "real (naturalHeight img) * fixedSelectionSizePercentage props \<le> real (naturalHeight img)"
    using assms(3,4) by (simp add: mult_left_le)
  have c: "0 \<le> real (naturalWidth img) * fixedSelectionSizePercentage props"
      "0 \<le> real (naturalHeight img) * fixedSelectionSizePercentage props"
    using assms(3) by simp_all
  show ?thesis unfolding r using a b c
    by (simp add: fixedBoxRect_def Let_def rect_within_def)
qed

lemma scenario_click:
  "handleMouseDown scenario_props scenario_display (400, 300) =
     (scenario_display, Some (scenario_rect, scenario_rect, DisplayCanvasUrl (ObjectUrl ''blob:initial'') scenario_rect))"
  by (simp add: handleMouseDown_def scenario_props_def scenario_display_def scenario_image_def
      getCanvasScale_def fixedBoxRect_def scenario_rect_def Let_def)

theorem fixedBox_within_witness:
  "handleMouseDown scenario_props scenario_display (400, 300) =
     (scenario_display, Some (scenario_rect, scenario_rect,
        DisplayCanvasUrl (ObjectUrl ''blob:initial'') scenario_rect)) \<and>
   display_image scenario_display = Some scenario_image \<and>
   (0::real) \<le> fixedSelectionSizePercentage scenario_props \<and>
   fixedSelectionSizePercentage scenario_props \<le> 1 \<and>
   rect_w scenario_rect = 100 \<and> rect_h scenario_rect = 75 \<and>
   rect_within scenario_rect 800 600"
proof -
  have d: "display_image scenario_display = Some scenario_image"
    by (simp add: scenario_display_def)
  have p: "0 \<le> fixedSelectionSizePercentage scenario_props"
      "fixedSelectionSizePercentage scenario_props \<le> 1"
    by (simp_all add: scenario_props_def)
  show ?thesis
    using fixedBox_within [OF scenario_click d p] scenario_click d p
    by (simp add: scenario_image_def scenario_props_def scenario_rect_def)
qed

text \<open>
  A box twice the size of the image: the second pair of tests moves it to
  \<open>W - boxWidth\<close>, which is negative, so it neither floors at 0 nor lies within bounds.
\<close>

theorem oversized_box_counterexample:
  "fst (the (snd (handleMouseDown (scenario_props\<lparr> fixedSelectionSizePercentage := 2 \<rparr>)
                    scenario_display (400, 300)))) =
     \<lparr> rect_x = - 800, rect_y = - 600, rect_w = 1600, rect_h = 1200 \<rparr> \<and>
   \<not> rect_within (fst (the (snd (handleMouseDown (scenario_props\<lparr> fixedSelectionSizePercentage := 2 \<rparr>)
                    scenario_display (400, 300))))) 800 600"
  by (simp add: handleMouseDown_def scenario_props_def scenario_display_def scenario_image_def
      getCanvasScale_def fixedBoxRect_def rect_within_def Let_def)

subsection \<open>Free-draw selections below ten pixels\<close>

text \<open>
  C10. A free-draw selection whose screen width or height is below 10 pixels at mouse-up
  is discarded: \<^verbatim>\<open>onStageSelection\<close> is not called, so nothing is staged, no
  enhancement starts, and the state of Home (staged selection and history included) is
  unchanged; only the component's own draft selection is cleared.
\<close>

theorem small_free_draw_discarded:
  assumes "\<not> useFixedSelectionBox props" and "selection d = Some sel"
    and "rect_w sel < 10 \<or> rect_h sel < 10"
  shows "handleMouseUp props d = (d\<lparr> startPoint := None, selection := None \<rparr>, None) \<and>
         onMouseUp props (d, s) = (d\<lparr> startPoint := None, selection := None \<rparr>, s)"
  using assms by (auto simp: handleMouseUp_def onMouseUp_def split: option.splits)

theorem small_free_draw_discarded_witness:
  "\<not> useFixedSelectionBox (scenario_props\<lparr> useFixedSelectionBox := False \<rparr>) \<and>
   selection (scenario_display\<lparr> selection := Some thin_rect, startPoint := Some (100, 100) \<rparr>) = Some thin_rect \<and>
   (rect_w thin_rect < 10 \<or> rect_h thin_rect < 10) \<and>
   onMouseUp (scenario_props\<lparr> useFixedSelectionBox := False \<rparr>)
     (scenario_display\<lparr> selection := Some thin_rect, startPoint := Some (100, 100) \<rparr>, scenario_home) =
     (scenario_display, scenario_home)"
proof -
  have a: "\<not> useFixedSelectionBox (scenario_props\<lparr> useFixedSelectionBox := False \<rparr>)" by simp
  have b: "selection (scenario_display\<lparr> selection := Some thin_rect, startPoint := Some (100, 100) \<rparr>) = Some thin_rect"
    by simp
  have c: "rect_w thin_rect < 10 \<or> rect_h thin_rect < 10" by (simp add: thin_rect_def)
  show ?thesis
    using small_free_draw_discarded [OF a b c, of scenario_home] a b c
    by (simp add: scenario_display_def)
qed

subsection \<open>History: commit\<close>

lemma slice0_take: "0 \<le> e \<Longrightarrow> slice0 xs e = take (nat e) xs"
  by (simp add: slice0_def)

lemma commit_history:
  assumes "enhancedImageSrc s = Some enhanced" and "enhanced \<noteq> EmptyUrl"
    and "newHistoryEntryData s = Some (desc, rect)"
    and "0 \<le> historyIndex s" and "historyIndex s < int (length (history s))"
  shows "history (handleEnhancementComplete env s) =
           take (nat (historyIndex s) + 1) (history s) @
             [\<lparr> imageSrc = enhanced, description = Some desc, originalRect = Some rect \<rparr>]"
    and "historyIndex (handleEnhancementComplete env s) = historyIndex s + 1"
  using assms
  by (auto simp: handleEnhancementComplete_def Let_def slice0_take nat_add_distrib min_def
      split: option.splits)

text \<open>
  C3. With the cursor behind the tip (\<open>cursor < length - 1\<close>), committing a new step
  truncates the steps to \<open>steps[0..cursor]\<close>, appends the new step and sets the cursor to
  the new last index; \<^verbatim>\<open>startEnhancementProcess\<close> has already made the same truncation
  when the enhancement was confirmed. For example \<open>[A,B,C]\<close> with cursor 1 and commit of
  \<open>D\<close> gives \<open>[A,B,D]\<close> with cursor 2.
\<close>

theorem commit_truncates_then_appends:
  assumes "enhancedImageSrc s = Some enhanced" and "enhanced \<noteq> EmptyUrl"
    and "newHistoryEntryData s = Some (desc, rect)"
    and "0 \<le> historyIndex s" and "historyIndex s < int (length (history s)) - 1"
  shows "history (handleEnhancementComplete env s) =
           take (nat (historyIndex s) + 1) (history s) @
             [\<lparr> imageSrc = enhanced, description = Some desc, originalRect = Some rect \<rparr>] \<and>
         historyIndex (handleEnhancementComplete env s) =
           int (length (history (handleEnhancementComplete env s))) - 1 \<and>
         historyIndex (handleEnhancementComplete env s) = historyIndex s + 1 \<and>
         (imageEl s \<noteq> None \<longrightarrow>
            history (startEnhancementProcess env s r sr u) = take (nat (historyIndex s) + 1) (history s))"
proof -
  have lt: "historyIndex s < int (length (history s))" using assms(5) by simp
  have h: "history (handleEnhancementComplete env s) =
           take (nat (historyIndex s) + 1) (history s) @
             [\<lparr> imageSrc = enhanced, description = Some desc, originalRect = Some rect \<rparr>]"
    by (rule commit_history(1) [OF assms(1-4) lt])
  have i: "historyIndex (handleEnhancementComplete env s) = historyIndex s + 1"
    by (rule commit_history(2) [OF assms(1-4) lt])
  have len: "int (length (history (handleEnhancementComplete env s))) = historyIndex s + 2"
    unfolding h using assms(4,5) by (simp add: min_def)
  have st: "imageEl s \<noteq> None \<longrightarrow>
            history (startEnhancementProcess env s r sr u) = take (nat (historyIndex s) + 1) (history s)"
    using assms(4,5)
    by (auto simp: startEnhancementProcess_def Let_def slice0_take nat_add_distrib split: option.splits)
  show ?thesis using h i len st by simp
qed

theorem commit_truncates_then_appends_witness:
  "history home_ABC_enhanced = [stepA, stepB, stepC] \<and> historyIndex home_ABC_enhanced = 1 \<and>
   history (handleEnhancementComplete scenario_env home_ABC_enhanced) = [stepA, stepB, stepD] \<and>
   historyIndex (handleEnhancementComplete scenario_env home_ABC_enhanced) = 2 \<and>
   history (startEnhancementProcess scenario_env home_ABC_enhanced scenario_rect scenario_rect EmptyUrl)
     = [stepA, stepB]"
proof -
  have a: "enhancedImageSrc home_ABC_enhanced = Some (ObjectUrl ''blob:D'')"
    and b: "ObjectUrl ''blob:D'' \<noteq> EmptyUrl"
    and c: "newHistoryEntryData home_ABC_enhanced = Some (fallbackDescription, scenario_rect)"
    and d: "0 \<le> historyIndex home_ABC_enhanced"
    and e: "historyIndex home_ABC_enhanced < int (length (history home_ABC_enhanced)) - 1"
    and f: "imageEl home_ABC_enhanced \<noteq> None"
    by (simp_all add: home_ABC_enhanced_def home_ABC_def scenario_home_def)
  have g: "history home_ABC_enhanced = [stepA, stepB, stepC]" "historyIndex home_ABC_enhanced = 1"
    by (simp_all add: home_ABC_enhanced_def home_ABC_def)
  show ?thesis
    using commit_truncates_then_appends [OF a b c d e, of scenario_env scenario_rect scenario_rect EmptyUrl] f g
    by (simp add: stepD_def)
qed

subsection \<open>History: regenerate\<close>









subsection \<open>The scenario, evaluated\<close>

lemma scenario_staged_eq:
  "scenario_staged = scenario_home \<lparr> stagedSelection :=
     Some \<lparr> staged_originalRect = scenario_rect, staged_screenRect = scenario_rect,
            canvasDataUrl = DisplayCanvasUrl (ObjectUrl ''blob:initial'') scenario_rect \<rparr> \<rparr>"
  by (simp add: scenario_staged_def onMouseDown_def scenario_click handleStageSelection_def)

lemma scenario_enhancing_fields:
  "enhancementJob scenario_enhancing =
     Some \<lparr> job_originalRect = scenario_rect,
            canvasWithSelectionDataUrl = DisplayCanvasUrl (ObjectUrl ''blob:initial'') scenario_rect,
            pixelatedSrc = CropUrl (ObjectUrl ''blob:initial'') scenario_rect 100 75 True,
            job_screenRect = scenario_rect \<rparr>"
  "imageEl scenario_enhancing = Some scenario_image"
  "history scenario_enhancing = history scenario_home"
  "historyIndex scenario_enhancing = 0"
  "stagedSelection scenario_enhancing = None"
  by (simp_all add: scenario_enhancing_def scenario_staged_eq handleProcessClick_def
      startEnhancementProcess_def scenario_home_def scenario_env_def cropImage_def Let_def
      scenario_image_def scenario_rect_def)




subsection \<open>A failing enhance call\<close>









subsection \<open>What the describe call receives\<close>

lemma staged_canvas_url:
  assumes "handleMouseDown props d pos = (d', Some c) \<or> handleMouseUp props d = (d', Some c)"
  shows "snd (snd c) = DisplayCanvasUrl (imageSrc_prop props) (fst (snd c))"
  using assms
  by (auto simp: handleMouseDown_def handleMouseUp_def Let_def split: if_splits option.splits)

lemma runEnhancementJob_describe_call:
  assumes "enhancementJob s = Some job" and "imageEl s = Some img"
  shows "take 1 (snd (runEnhancementJob env s)) =
           [DescribeCall (canvasWithSelectionDataUrl job)
              (List.map_filter description (slice0 (history s) (historyIndex s + 1)))]"
  using assms by (simp add: runEnhancementJob_def Let_def split: option.splits)

lemma process_click_fields:
  assumes "imageEl s = Some img" and "0 \<le> historyIndex s"
  shows "\<exists>job. enhancementJob (handleProcessClick env (handleStageSelection s (rect, screen, dataUrl))) = Some job \<and>
               canvasWithSelectionDataUrl job = dataUrl \<and> job_originalRect job = rect"
    and "imageEl (handleProcessClick env (handleStageSelection s (rect, screen, dataUrl))) = Some img"
    and "historyIndex (handleProcessClick env (handleStageSelection s (rect, screen, dataUrl))) = historyIndex s"
    and "take (nat (historyIndex s) + 1)
           (history (handleProcessClick env (handleStageSelection s (rect, screen, dataUrl)))) =
         take (nat (historyIndex s) + 1) (history s)"
  using assms
  by (simp_all add: handleStageSelection_def handleProcessClick_def startEnhancementProcess_def
      Let_def slice0_take nat_add_distrib)

text \<open>
  C5 (as amended). For every confirmed enhancement of a selection staged by a click or a
  drag, \<^verbatim>\<open>serviceDescribeImage\<close> is the first service called, and it is called with the
  snapshot of the on-screen canvas taken when the selection was staged (the whole
  displayed image with the dashed selection box drawn on it), together with the ordered
  list of the descriptions of the steps up to and including the cursor, null
  descriptions excluded.
\<close>

theorem describe_receives_canvas_snapshot:
  assumes "handleMouseDown props d pos = (d', Some c) \<or> handleMouseUp props d = (d', Some c)"
    and "imageEl s = Some img" and "0 \<le> historyIndex s"
  shows "take 1 (snd (runEnhancementJob env (handleProcessClick env (handleStageSelection s c)))) =
           [DescribeCall (DisplayCanvasUrl (imageSrc_prop props) (fst (snd c)))
              (List.map_filter description (take (nat (historyIndex s) + 1) (history s)))]"
proof -
  obtain rect screen dataUrl where c: "c = (rect, screen, dataUrl)" by (cases c) auto
  have u: "dataUrl = DisplayCanvasUrl (imageSrc_prop props) screen"
    using staged_canvas_url [OF assms(1)] by (simp add: c)
  define s' where "s' = handleProcessClick env (handleStageSelection s (rect, screen, dataUrl))"
  obtain job where job: "enhancementJob s' = Some job" "canvasWithSelectionDataUrl job = dataUrl"
    unfolding s'_def using process_click_fields(1) [OF assms(2,3)] by blast
  have img: "imageEl s' = Some img"
    unfolding s'_def by (rule process_click_fields(2) [OF assms(2,3)])
  have "slice0 (history s') (historyIndex s' + 1) = take (nat (historyIndex s) + 1) (history s')"
    unfolding s'_def using assms(3)
    by (simp add: process_click_fields(3) [OF assms(2,3)] slice0_take nat_add_distrib)
  also have "\<dots> = take (nat (historyIndex s) + 1) (history s)"
    unfolding s'_def by (rule process_click_fields(4) [OF assms(2,3)])
  finally have sl: "slice0 (history s') (historyIndex s' + 1) = take (nat (historyIndex s) + 1) (history s)" .
  show ?thesis
    using runEnhancementJob_describe_call [OF job(1) img, of env]
    by (simp add: c u [symmetric] job(2) sl s'_def [symmetric])
qed

theorem describe_receives_canvas_snapshot_witness:
  "take 1 (snd (runEnhancementJob scenario_env scenario_enhancing)) =
     [DescribeCall (DisplayCanvasUrl (ObjectUrl ''blob:initial'') scenario_rect) []]"
proof -
  have a: "handleMouseDown scenario_props scenario_display (400, 300) =
             (scenario_display, Some (scenario_rect, scenario_rect,
                DisplayCanvasUrl (ObjectUrl ''blob:initial'') scenario_rect)) \<or>
           handleMouseUp scenario_props scenario_display =
             (scenario_display, Some (scenario_rect, scenario_rect,
                DisplayCanvasUrl (ObjectUrl ''blob:initial'') scenario_rect))"
    using scenario_click by simp
  have b: "imageEl scenario_home = Some scenario_image" "0 \<le> historyIndex scenario_home"
    by (simp_all add: scenario_home_def)
  have st: "handleStageSelection scenario_home (scenario_rect, scenario_rect,
                DisplayCanvasUrl (ObjectUrl ''blob:initial'') scenario_rect) = scenario_staged"
    by (simp add: scenario_staged_eq handleStageSelection_def)
  have h: "historyIndex scenario_home = 0"
      "history scenario_home =
         [\<lparr> imageSrc = ObjectUrl ''blob:initial'', description = None, originalRect = None \<rparr>]"
      "imageSrc_prop scenario_props = ObjectUrl ''blob:initial''"
    by (simp_all add: scenario_home_def scenario_props_def)
  show ?thesis
    using describe_receives_canvas_snapshot [OF a b, of scenario_env]
    by (simp add: st scenario_enhancing_def [symmetric] h List.map_filter_def)
qed

text \<open>
  In the scenario the image handed to the describe call is the canvas snapshot; it is
  not a crop of the selection rectangle from the current image.
\<close>

theorem describe_not_given_crop_counterexample:
  "\<not> is_crop_of (call_image (hd (snd (runEnhancementJob scenario_env scenario_enhancing))))
       (ObjectUrl ''blob:initial'') scenario_rect \<and>
   call_image (hd (snd (runEnhancementJob scenario_env scenario_enhancing))) =
     DisplayCanvasUrl (ObjectUrl ''blob:initial'') scenario_rect"
  by (simp add: runEnhancementJob_def scenario_enhancing_fields Let_def split: option.splits)

subsection \<open>The zoom GIF\<close>












subsection \<open>The pixel dissolve\<close>

lemma random_index_le:
  assumes "0 \<le> r" and "r < 1"
  shows "nat \<lfloor>r * real (Suc n + 1)\<rfloor> \<le> Suc n"
proof -
  have "r * real (Suc n + 1) < real (Suc n + 1)" using assms by simp
  then have "\<lfloor>r * real (Suc n + 1)\<rfloor> < int (Suc n + 1)" by (simp add: floor_less_iff)
  then show ?thesis by simp
qed

lemma mset_fisherYates:
  assumes "\<forall>k. 0 \<le> random k \<and> random k < 1" and "n \<le> length xs - 1"
  shows "mset (fisherYates random calls n xs) = mset xs"
  using assms(2)
proof (induction n arbitrary: calls xs)
  case 0
  then show ?case by simp
next
  case (Suc n)
  define j where "j = nat \<lfloor>random calls * real (Suc n + 1)\<rfloor>"
  have j: "j \<le> Suc n" unfolding j_def using assms(1) by (intro random_index_le) auto
  have i: "Suc n < length xs" using Suc.prems by simp
  have sw: "mset (xs[Suc n := xs ! j, j := xs ! Suc n]) = mset xs"
    using mset_swap [of j xs "Suc n"] i j by simp
  have "mset (fisherYates random (Suc calls) n (xs[Suc n := xs ! j, j := xs ! Suc n])) =
        mset (xs[Suc n := xs ! j, j := xs ! Suc n])"
    using Suc.prems by (intro Suc.IH) simp
  then show ?case using sw by (simp add: Let_def j_def)
qed

lemma shuffledIndices_perm:
  assumes "\<forall>k. 0 \<le> random k \<and> random k < 1"
  shows "mset (shuffledIndices random n) = mset [0..<n]"
  unfolding shuffledIndices_def by (rule mset_fisherYates [OF assms]) simp

lemma shuffledIndices_bij:
  assumes "\<forall>k. 0 \<le> random k \<and> random k < 1"
  shows "length (shuffledIndices random n) = n"
    and "distinct (shuffledIndices random n)"
    and "set (shuffledIndices random n) = {0..<n}"
proof -
  note m = shuffledIndices_perm [OF assms, of n]
  show "length (shuffledIndices random n) = n" using mset_eq_length [OF m] by simp
  show "distinct (shuffledIndices random n)" using mset_eq_imp_distinct_iff [OF m] by simp
  show "set (shuffledIndices random n) = {0..<n}" using mset_eq_setD [OF m] by simp
qed

lemma length_revealPixel [simp]: "length (revealPixel high low p) = length low"
  by (simp add: revealPixel_def Let_def)

lemma nth_revealPixel:
  assumes "length low = length high" and "q < length low"
  shows "revealPixel high low p ! q =
           (if p * 4 \<le> q \<and> q < p * 4 + 4 \<and> p * 4 + 3 < length low then high ! q else low ! q)"
proof (cases "p * 4 + 3 < length low")
  case False
  then show ?thesis using assms by (simp add: revealPixel_def Let_def)
next
  case True
  consider "q = p * 4" | "q = p * 4 + 1" | "q = p * 4 + 2" | "q = p * 4 + 3" | "q < p * 4 \<or> p * 4 + 4 \<le> q"
    by linarith
  then show ?thesis
    using True assms by cases (auto simp: revealPixel_def Let_def nth_list_update)
qed

text \<open>Bytes that agree with the high-detail data keep agreeing.\<close>

lemma reveal_chunk:
  assumes "length low = length high"
  shows "length (foldl (\<lambda>buf i. revealPixel high buf (perm ! i)) low is) = length high \<and>
         (\<forall>q < length high.
            foldl (\<lambda>buf i. revealPixel high buf (perm ! i)) low is ! q =
              (if \<exists>i \<in> set is. perm ! i * 4 \<le> q \<and> q < perm ! i * 4 + 4 \<and> perm ! i * 4 + 3 < length high
               then high ! q else low ! q))"
  using assms
proof (induction "is" arbitrary: low)
  case Nil
  then show ?case by simp
next
  case (Cons i "is")
  have l: "length (revealPixel high low (perm ! i)) = length high" using Cons.prems by simp
  note ih = Cons.IH [OF l]
  show ?case
  proof (intro conjI allI impI)
    show "length (foldl (\<lambda>buf i. revealPixel high buf (perm ! i)) low (i # is)) = length high"
      using ih by simp
  next
    fix q assume q: "q < length high"
    have "foldl (\<lambda>buf i. revealPixel high buf (perm ! i)) low (i # is) ! q =
          foldl (\<lambda>buf i. revealPixel high buf (perm ! i)) (revealPixel high low (perm ! i)) is ! q"
      by simp
    also have "\<dots> = (if \<exists>k \<in> set is. perm ! k * 4 \<le> q \<and> q < perm ! k * 4 + 4 \<and> perm ! k * 4 + 3 < length high
               then high ! q else revealPixel high low (perm ! i) ! q)"
      using ih q by simp
    also have "\<dots> = (if \<exists>k \<in> set (i # is). perm ! k * 4 \<le> q \<and> q < perm ! k * 4 + 4 \<and> perm ! k * 4 + 3 < length high
               then high ! q else low ! q)"
      using q Cons.prems by (auto simp: nth_revealPixel)
    finally show "foldl (\<lambda>buf i. revealPixel high buf (perm ! i)) low (i # is) ! q =
          (if \<exists>i \<in> set (i # is). perm ! i * 4 \<le> q \<and> q < perm ! i * 4 + 4 \<and> perm ! i * 4 + 3 < length high
               then high ! q else low ! q)" .
  qed
qed

lemma animate_total:
  "\<forall>t. mounted t \<Longrightarrow> \<exists>st'. animate mounted perm high N tick st = Some st'"
proof (induction mounted perm high N tick st rule: animate.induct)
  case (1 mounted pixelIndices highData totalPixels tick st)
  have m: "mounted tick" using "1.prems" by simp
  show ?case
  proof (cases "totalPixels \<le> currentPixel st")
    case True
    then show ?thesis using m by (subst animate.simps) (simp del: animate.simps)
  next
    case False
    then show ?thesis
      using "1.IH" [OF _ False refl refl "1.prems"] m
      by (subst animate.simps) (simp add: Let_def del: animate.simps)
  qed
qed

lemma animate_reveals:
  "length high = 4 * N \<Longrightarrow> \<forall>i < N. perm ! i < N \<Longrightarrow>
   length (lowData st) = length high \<Longrightarrow> currentPixel st \<le> N \<Longrightarrow>
   \<forall>q < length high. (\<exists>i < currentPixel st. perm ! i * 4 \<le> q \<and> q < perm ! i * 4 + 4)
       \<longrightarrow> lowData st ! q = high ! q \<Longrightarrow>
   animate mounted perm high N tick st = Some st' \<Longrightarrow>
   length (lowData st') = length high \<and>
   (\<forall>q < length high. (\<exists>i < N. perm ! i * 4 \<le> q \<and> q < perm ! i * 4 + 4)
       \<longrightarrow> lowData st' ! q = high ! q) \<and>
   canvasData st' = high \<and> onCompleteCalls st' = onCompleteCalls st + 1"
proof (induction mounted perm high N tick st arbitrary: st' rule: animate.induct)
  case (1 mounted perm high N tick st)
  note len = "1.prems"(1) and rng = "1.prems"(2) and ll = "1.prems"(3) and cur = "1.prems"(4)
    and inv = "1.prems"(5) and run = "1.prems"(6)
  have m: "mounted tick"
    using run by (subst (asm) animate.simps) (simp del: animate.simps split: if_splits)
  show ?case
  proof (cases "N \<le> currentPixel st")
    case True
    then have c: "currentPixel st = N" using cur by simp
    have "st' = st\<lparr> canvasData := high, onCompleteCalls := onCompleteCalls st + 1 \<rparr>"
      using run m True by (subst (asm) animate.simps) (simp del: animate.simps)
    then show ?thesis using ll inv c by simp
  next
    case False
    define endPixel where "endPixel = min (currentPixel st + pixelsPerFrame N) N"
    define low where
      "low = foldl (\<lambda>buf i. revealPixel high buf (perm ! i)) (lowData st) [currentPixel st..<endPixel]"
    define st1 where "st1 = st\<lparr> lowData := low, canvasData := low, currentPixel := endPixel \<rparr>"
    have run1: "animate mounted perm high N (Suc tick) st1 = Some st'"
      using run m False
      by (subst (asm) animate.simps) (simp add: Let_def st1_def low_def endPixel_def del: animate.simps)
    note ch = reveal_chunk [OF ll, of perm "[currentPixel st..<endPixel]", folded low_def]
    have ll1: "length (lowData st1) = length high" using ch by (simp add: st1_def)
    have cur1: "currentPixel st1 \<le> N" by (simp add: st1_def endPixel_def)
    have inv1: "\<forall>q < length high. (\<exists>i < currentPixel st1. perm ! i * 4 \<le> q \<and> q < perm ! i * 4 + 4)
                  \<longrightarrow> lowData st1 ! q = high ! q"
    proof (intro allI impI)
      fix q assume q: "q < length high"
        and ex: "\<exists>i < currentPixel st1. perm ! i * 4 \<le> q \<and> q < perm ! i * 4 + 4"
      then obtain i where i: "i < endPixel" "perm ! i * 4 \<le> q" "q < perm ! i * 4 + 4"
        by (auto simp: st1_def)
      have nth: "low ! q =
              (if \<exists>k \<in> set [currentPixel st..<endPixel].
                    perm ! k * 4 \<le> q \<and> q < perm ! k * 4 + 4 \<and> perm ! k * 4 + 3 < length high
               then high ! q else lowData st ! q)"
        using ch q by blast
      show "lowData st1 ! q = high ! q"
      proof (cases "i < currentPixel st")
        case True
        then have "lowData st ! q = high ! q" using inv q i by blast
        then show ?thesis using nth by (simp add: st1_def)
      next
        case False
        have "i < N" using i(1) by (simp add: endPixel_def)
        then have "perm ! i < N" using rng by blast
        then have "perm ! i * 4 + 3 < length high" using len by simp
        then have "\<exists>k \<in> set [currentPixel st..<endPixel].
                    perm ! k * 4 \<le> q \<and> q < perm ! k * 4 + 4 \<and> perm ! k * 4 + 3 < length high"
          using False i by (intro bexI [of _ i]) auto
        then show ?thesis using nth by (simp add: st1_def)
      qed
    qed
    have mm: "\<not> \<not> mounted tick" using m by simp
    have ih: "length (lowData st') = length high \<and>
          (\<forall>q < length high. (\<exists>i < N. perm ! i * 4 \<le> q \<and> q < perm ! i * 4 + 4)
              \<longrightarrow> lowData st' ! q = high ! q) \<and>
          canvasData st' = high \<and> onCompleteCalls st' = onCompleteCalls st1 + 1"
      unfolding st1_def
      by (rule "1.IH" [OF mm False endPixel_def low_def len rng ll1 [unfolded st1_def]
            cur1 [unfolded st1_def] inv1 [unfolded st1_def] run1 [unfolded st1_def]])
    then show ?thesis by (simp add: st1_def)
  qed
qed

text \<open>
  C7. For every pair of equally sized rasters of \<open>N = width * height\<close> pixels (and draws
  of \<^verbatim>\<open>Math.random\<close> in \<open>[0,1)\<close>), the shuffled index array is a bijection on \<open>[0, N)\<close>: it
  has \<open>N\<close> entries, no entry twice, and every index among them. Whenever the animation
  completes, the working buffer equals the high-detail raster at every byte of every
  pixel, the canvas shows the high-detail raster and \<^verbatim>\<open>onComplete\<close> has been called
  once; and it does complete when the contexts exist and the canvas stays mounted.
\<close>

theorem pixel_reveal_bijection_and_completion:
  assumes "\<forall>k. 0 \<le> random k \<and> random k < 1"
    and "length low0 = 4 * (width * height)" and "length high = 4 * (width * height)"
  shows "length (shuffledIndices random (width * height)) = width * height \<and>
         distinct (shuffledIndices random (width * height)) \<and>
         set (shuffledIndices random (width * height)) = {0..<width * height} \<and>
         (\<forall>st. startAnimation random mounted contexts width height low0 high = Some st \<longrightarrow>
               lowData st = high \<and> canvasData st = high \<and> onCompleteCalls st = 1) \<and>
         (contexts \<and> (\<forall>t. mounted t) \<longrightarrow>
            (\<exists>st. startAnimation random mounted contexts width height low0 high = Some st))"
proof -
  define N where "N = width * height"
  define perm where "perm = shuffledIndices random N"
  note bij = shuffledIndices_bij [OF assms(1), of N, folded perm_def]
  have rng: "\<forall>i < N. perm ! i < N"
  proof (intro allI impI)
    fix i assume "i < N"
    then have "perm ! i \<in> set perm" using bij(1) by simp
    then show "perm ! i < N" using bij(3) by simp
  qed
  have fin: "lowData st = high \<and> canvasData st = high \<and> onCompleteCalls st = 1"
    if run: "startAnimation random mounted contexts width height low0 high = Some st" for st
  proof -
    define st0 where
      "st0 = \<lparr> lowData = low0, canvasData = low0, currentPixel = 0, onCompleteCalls = 0 \<rparr>"
    have a: "animate mounted perm high N 0 st0 = Some st"
      using run by (simp add: startAnimation_def Let_def N_def perm_def st0_def del: animate.simps split: if_splits)
    have len: "length high = 4 * N" using assms(3) by (simp add: N_def)
    have r: "length (lowData st) = length high \<and>
          (\<forall>q < length high. (\<exists>i < N. perm ! i * 4 \<le> q \<and> q < perm ! i * 4 + 4)
              \<longrightarrow> lowData st ! q = high ! q) \<and>
          canvasData st = high \<and> onCompleteCalls st = onCompleteCalls st0 + 1"
      using assms(2) len by (intro animate_reveals [OF len rng _ _ _ a]) (simp_all add: st0_def N_def)
    have "lowData st = high"
    proof (rule nth_equalityI)
      show "length (lowData st) = length high" using r by simp
    next
      fix q assume "q < length (lowData st)"
      then have q: "q < length high" using r by simp
      then have "q div 4 < N" using len by simp
      then have "q div 4 \<in> set perm" using bij(3) by simp
      then obtain i where i: "i < N" "perm ! i = q div 4"
        using bij(1) by (auto simp: in_set_conv_nth)
      have "perm ! i * 4 \<le> q \<and> q < perm ! i * 4 + 4" unfolding i(2) by presburger
      then show "lowData st ! q = high ! q" using r q i(1) by blast
    qed
    then show ?thesis using r by (simp add: st0_def)
  qed
  have total: "\<exists>st. startAnimation random mounted contexts width height low0 high = Some st"
    if "contexts \<and> (\<forall>t. mounted t)"
    using that animate_total [of mounted]
    by (simp add: startAnimation_def Let_def del: animate.simps)
  show ?thesis
    using bij fin total unfolding perm_def N_def by blast
qed

theorem pixel_reveal_bijection_and_completion_witness:
  "shuffledIndices (\<lambda>k. 3 / 5) (3 * 1) = [0, 2, 1] \<and>
   distinct (shuffledIndices (\<lambda>k. 3 / 5) (3 * 1)) \<and>
   set (shuffledIndices (\<lambda>k. 3 / 5) (3 * 1)) = {0..<3 * 1} \<and>
   lowData (the (startAnimation (\<lambda>k. 3 / 5) (\<lambda>t. True) True 3 1
                  [0, 0, 0, 0, 0, 0, 0, 0, 0, 0, 0, 0] [1, 2, 3, 4, 5, 6, 7, 8, 9, 10, 11, 12])) =
     [1, 2, 3, 4, 5, 6, 7, 8, 9, 10, 11, 12]"
proof -
  have r: "\<forall>k::nat. (0::real) \<le> 3 / 5 \<and> (3 / 5 :: real) < 1" by simp
  have l: "length [0, 0, 0, 0, 0, 0, 0, 0, 0, 0, 0, 0 :: 8 word] = 4 * (3 * 1)"
      "length [1, 2, 3, 4, 5, 6, 7, 8, 9, 10, 11, 12 :: 8 word] = 4 * (3 * 1)"
    by simp_all
  note t = pixel_reveal_bijection_and_completion [OF r l, of "\<lambda>t. True" True]
  have sh: "shuffledIndices (\<lambda>k. 3 / 5) (3 * 1) = [0, 2, 1]"
    by (simp add: shuffledIndices_def numeral_2_eq_2 upt_rec Let_def)
  obtain st where "startAnimation (\<lambda>k. 3 / 5) (\<lambda>t. True) True 3 1
                  [0, 0, 0, 0, 0, 0, 0, 0, 0, 0, 0, 0] [1, 2, 3, 4, 5, 6, 7, 8, 9, 10, 11, 12] = Some st"
      "lowData st = [1, 2, 3, 4, 5, 6, 7, 8, 9, 10, 11, 12]"
    using t by auto
  then show ?thesis using t sh by simp
qed

end
